theory Spec2Isabelle
  imports Main "HOL-Library.Word"
begin

section \<open>The isubank service: data model\<close>

text \<open>
  The bank application keeps three tables in a relational store and serves six POST
  operations. The store itself is an external collaborator; what is modelled here is the
  application code of the handlers together with the meaning of the SQL statements it
  sends. A table is the list of its rows in primary-key order (rows are appended with
  keys taken from a counter). Go's \<open>int64\<close> amounts are 64-bit words read as two's
  complement; row identities are only ever compared, and timestamps are whole seconds
  (the code formats them with second precision), so both are mathematical integers.
\<close>

type_synonym int64 = "64 word"

record user =
  u_id :: int
  bank_id :: string
  credit :: int64
  u_created_at :: int

record credit_entry =
  c_user_id :: int
  c_amount :: int64
  c_note :: string
  c_created_at :: int

record reserve =
  r_id :: int
  r_user_id :: int
  r_amount :: int64
  r_note :: string
  is_minus :: bool
  r_created_at :: int
  expire_at :: int

record database =
  users :: "user list"
  credits :: "credit_entry list"
  reserves :: "reserve list"
  next_user_id :: int
  next_reserve_id :: int

subsection \<open>Errors and responses\<close>

text \<open>
  The three sentinel errors of the source, the errors the driver can hand back, and the
  two ways the code builds new errors: \<open>errors.Wrap(err, msg)\<close> and \<open>errors.Errorf\<close>
  for a recovered panic value.
\<close>

datatype error =
    CreditIsInsufficient
  | ReserveIsExpires
  | ReserveIsAlreadyCommited
  | ErrNoRows
  | StoreError nat
  | OutOfRange
  | Wrap error string
  | PanicInTransaction string

fun error_text :: "error \<Rightarrow> string" where
  "error_text CreditIsInsufficient = ''credit is insufficient''"
| "error_text ReserveIsExpires = ''reserve is already expired''"
| "error_text ReserveIsAlreadyCommited = ''reserve is already commited''"
| "error_text ErrNoRows = ''sql: no rows in result set''"
| "error_text (StoreError n) = ''store error''"
| "error_text OutOfRange = ''value out of range''"
| "error_text (Wrap e msg) = msg @ '': '' @ error_text e"
| "error_text (PanicInTransaction v) = ''panic in transaction: '' @ v"

record response =
  code :: nat
  body :: string

definition ResOK :: string where
  \<open>ResOK = ''{"status":"ok"}''\<close>

definition ResError :: "string \<Rightarrow> string" where
  \<open>ResError err = ''{"status":"ng","error":"'' @ err @ ''"}''\<close>

definition newline :: string where
  "newline = [CHR 0x0A]"

definition Error :: "string \<Rightarrow> nat \<Rightarrow> response" where
  "Error err c = \<lparr>code = c, body = ResError err @ newline\<rparr>"

definition Success :: response where
  "Success = \<lparr>code = 200, body = ResOK @ newline\<rparr>"

text \<open>A handler that returns without writing anything leaves the default answer.\<close>

definition unwritten :: response where
  "unwritten = \<lparr>code = 200, body = []\<rparr>"

subsection \<open>The connection to the store\<close>

text \<open>
  \<open>store\<close> is the committed contents of the tables, \<open>work\<close> the contents as the open
  transaction sees them (its own writes included). \<open>faults\<close> lists what the store answers
  to the coming calls: \<open>None\<close> (or an exhausted list) lets a call through, \<open>Some e\<close>
  makes it fail with \<open>e\<close>. \<open>trace\<close> records transaction boundaries, the rows locked by
  locking reads, and writes. \<open>last_insert_id\<close> is the key the store reports back for the
  latest INSERT. The key counters are kept with the tables, so a rollback also takes back
  the keys it handed out; nothing below depends on that.
\<close>

datatype event =
    EvBegin
  | EvCommit
  | EvRollback
  | EvLockUser int
  | EvLockReserve int
  | EvInsertUser int
  | EvInsertCredit int
  | EvUpdateCredit int
  | EvInsertReserve int
  | EvDeleteReserve "int list"

record session =
  store :: database
  work :: database
  faults :: "error option list"
  trace :: "event list"
  last_insert_id :: int

definition db_call :: "session \<Rightarrow> error option \<times> session" where
  "db_call s = (case faults s of [] \<Rightarrow> (None, s) | e # es \<Rightarrow> (e, s\<lparr>faults := es\<rparr>))"

definition emit :: "event list \<Rightarrow> session \<Rightarrow> session" where
  "emit evs s = s\<lparr>trace := trace s @ evs\<rparr>"

text \<open>
  Under read-committed isolation a statement sees what other transactions have committed
  in the meantime. \<open>others g\<close> lets the rest of the world apply \<open>g\<close> to the tables; the
  handlers call it only at a point where the open transaction has written nothing yet.
\<close>

definition others :: "(database \<Rightarrow> database) \<Rightarrow> session \<Rightarrow> session" where
  "others g s = s\<lparr>store := g (store s), work := g (work s)\<rparr>"

text \<open>Scanning a SUM (an exact decimal) into an \<open>int64\<close> fails when it does not fit.\<close>

definition scan_int64 :: "int \<Rightarrow> error + int64" where
  "scan_int64 v = (if - (2 ^ 63) \<le> v \<and> v < 2 ^ 63 then Inr (word_of_int v) else Inl OutOfRange)"

subsection \<open>txScorp\<close>

text \<open>
  The closure either returns an error value (\<open>None\<close> is \<open>nil\<close>) or panics with a value,
  kept here as its \<open>%s\<close> rendering. \<open>recover()\<close> yields that value while panicking.
  A failed COMMIT applies nothing.
\<close>

datatype outcome = Returns "error option" | Panics string

definition txScorp :: "(session \<Rightarrow> outcome \<times> session) \<Rightarrow> session \<Rightarrow> error option \<times> session" where
  "txScorp f s =
    (case db_call s of
       (Some e, s1) \<Rightarrow> (Some (Wrap e ''begin transaction failed''), s1)
     | (None, s1) \<Rightarrow>
        (case f (emit [EvBegin] (s1\<lparr>work := store s1\<rparr>)) of
           (Panics v, t) \<Rightarrow>
             (Some (PanicInTransaction v), emit [EvRollback] (t\<lparr>work := store t\<rparr>))
         | (Returns (Some e), t) \<Rightarrow>
             (Some e, emit [EvRollback] (t\<lparr>work := store t\<rparr>))
         | (Returns None, t) \<Rightarrow>
             (case db_call t of
                (Some e, t1) \<Rightarrow> (Some e, emit [EvCommit] (t1\<lparr>work := store t1\<rparr>))
              | (None, t1) \<Rightarrow> (None, emit [EvCommit] (t1\<lparr>store := work t1\<rparr>)))))"

subsection \<open>modyfyCredit\<close>

definition ledger_balance :: "database \<Rightarrow> int \<Rightarrow> int" where
  "ledger_balance d uid =
     sum_list (map (\<lambda>c. sint (c_amount c)) (filter (\<lambda>c. c_user_id c = uid) (credits d)))"

definition insert_credit :: "int \<Rightarrow> int64 \<Rightarrow> string \<Rightarrow> int \<Rightarrow> session \<Rightarrow> error option \<times> session" where
  "insert_credit userID price memo now s =
    (case db_call s of
       (Some e, s1) \<Rightarrow> (Some e, s1)
     | (None, s1) \<Rightarrow>
        (None, emit [EvInsertCredit userID]
           (s1\<lparr>work := (work s1)\<lparr>credits := credits (work s1) @
              [\<lparr>c_user_id = userID, c_amount = price, c_note = memo, c_created_at = now\<rparr>]\<rparr>\<rparr>)))"

definition sum_credit :: "int \<Rightarrow> session \<Rightarrow> (error + int64) \<times> session" where
  "sum_credit userID s =
    (case db_call s of
       (Some e, s1) \<Rightarrow> (Inl e, s1)
     | (None, s1) \<Rightarrow> (scan_int64 (ledger_balance (work s1) userID), s1))"

definition update_credit :: "int64 \<Rightarrow> int \<Rightarrow> session \<Rightarrow> error option \<times> session" where
  "update_credit v userID s =
    (case db_call s of
       (Some e, s1) \<Rightarrow> (Some e, s1)
     | (None, s1) \<Rightarrow>
        (None, emit [EvUpdateCredit userID]
           (s1\<lparr>work := (work s1)\<lparr>users :=
              map (\<lambda>u. if u_id u = userID then u\<lparr>credit := v\<rparr> else u) (users (work s1))\<rparr>\<rparr>)))"

definition modyfyCredit :: "int \<Rightarrow> int64 \<Rightarrow> string \<Rightarrow> int \<Rightarrow> session \<Rightarrow> error option \<times> session" where
  "modyfyCredit userID price memo now s =
    (case insert_credit userID price memo now s of
       (Some e, s1) \<Rightarrow> (Some (Wrap e ''insert credit failed''), s1)
     | (None, s1) \<Rightarrow>
        (case sum_credit userID s1 of
           (Inl e, s2) \<Rightarrow> (Some (Wrap e ''calc credit failed''), s2)
         | (Inr v, s2) \<Rightarrow>
            (case update_credit v userID s2 of
               (Some e, s3) \<Rightarrow> (Some (Wrap e ''update user.credit failed''), s3)
             | (None, s3) \<Rightarrow> (None, s3))))"

subsection \<open>Requests\<close>

text \<open>
  A request is its method and its decoded JSON body (\<open>None\<close> when decoding fails). Each
  handler declares a struct with some of the fields below; the decoder ignores the rest
  and leaves an absent field at its zero value.
\<close>

record ReqPram =
  AppID :: string
  BankID :: string
  Price :: int64
  ReserveIDs :: "int list"

record request =
  Method :: string
  payload :: "ReqPram option"

subsection \<open>filterBankID\<close>

text \<open>
  Returns the user id (0 when there is none) and the error response it has written, if
  any. The lookup runs outside any transaction, on the committed tables.
\<close>

definition filterBankID :: "string \<Rightarrow> session \<Rightarrow> (int \<times> response option) \<times> session" where
  "filterBankID bankID s =
    (if bankID = [] then ((0, Some (Error ''bank_id is required'' 400)), s)
     else
      (case db_call s of
         (Some e, s1) \<Rightarrow> ((0, Some (Error ''internal server error'' 500)), s1)
       | (None, s1) \<Rightarrow>
          (case find (\<lambda>u. bank_id u = bankID) (users (store s1)) of
             None \<Rightarrow> ((0, Some (Error ''user not found'' 404)), s1)
           | Some u \<Rightarrow> ((u_id u, None), s1))))"

definition written :: "response option \<Rightarrow> response" where
  "written w = (case w of None \<Rightarrow> unwritten | Some r \<Rightarrow> r)"

subsection \<open>Register\<close>

text \<open>
  Modelled from the spec: the table definitions are not among the sources. The spec makes
  \<open>bank_id\<close> unique, hands out \<open>user_id\<close> on insert, and has the cached balance equal the
  ledger sum, which is 0 for a user without ledger entries; so the column default is 0.
\<close>

definition default_credit :: int64 where
  "default_credit = 0"

definition insert_user :: "string \<Rightarrow> int \<Rightarrow> session \<Rightarrow> error option \<times> session" where
  "insert_user bankID now s =
    (case db_call s of
       (Some e, s1) \<Rightarrow> (Some e, s1)
     | (None, s1) \<Rightarrow>
        (if bankID \<in> set (map bank_id (users (store s1))) then (Some (StoreError 1062), s1)
         else
          (let d = store s1;
               d' = d\<lparr>users := users d @
                      [\<lparr>u_id = next_user_id d, bank_id = bankID, credit = default_credit,
                        u_created_at = now\<rparr>],
                     next_user_id := next_user_id d + 1\<rparr>
           in (None, emit [EvInsertUser (next_user_id d)] (s1\<lparr>store := d', work := d'\<rparr>)))))"

definition Register :: "int \<Rightarrow> request \<Rightarrow> session \<Rightarrow> response \<times> session" where
  "Register now r s =
    (if Method r \<noteq> ''POST'' then (Error ''method not allowed'' 405, s)
     else
      (case payload r of
         None \<Rightarrow> (Error ''can't parse body'' 400, s)
       | Some req \<Rightarrow>
          (if BankID req = [] then (Error ''bank_id is required'' 400, s)
           else
            (case insert_user (BankID req) now s of
               (Some e, s1) \<Rightarrow>
                 (if e = StoreError 1062 then (Error ''bank_id already exists'' 400, s1)
                  else (Error ''internal server error'' 500, s1))
             | (None, s1) \<Rightarrow> (Success, s1)))))"

subsection \<open>AddCredit\<close>

text \<open>\<open>SELECT id FROM user WHERE id = ? LIMIT 1 FOR UPDATE\<close>: locks the row it finds.\<close>

definition lock_user :: "int \<Rightarrow> session \<Rightarrow> error option \<times> session" where
  "lock_user userID s =
    (case db_call s of
       (Some e, s1) \<Rightarrow> (Some e, s1)
     | (None, s1) \<Rightarrow>
        (None, emit (map (\<lambda>u. EvLockUser (u_id u))
                 (take 1 (filter (\<lambda>u. u_id u = userID) (users (work s1))))) s1))"

definition AddCredit_tx :: "int \<Rightarrow> int64 \<Rightarrow> int \<Rightarrow> session \<Rightarrow> outcome \<times> session" where
  "AddCredit_tx userID price now t =
    (case lock_user userID t of
       (Some e, t1) \<Rightarrow> (Returns (Some (Wrap e ''select lock failed'')), t1)
     | (None, t1) \<Rightarrow>
        (case modyfyCredit userID price ''by add credit API'' now t1 of
           (e, t2) \<Rightarrow> (Returns e, t2)))"

definition AddCredit :: "int \<Rightarrow> request \<Rightarrow> session \<Rightarrow> response \<times> session" where
  "AddCredit now r s =
    (if Method r \<noteq> ''POST'' then (Error ''method not allowed'' 405, s)
     else
      (case payload r of
         None \<Rightarrow> (Error ''can't parse body'' 400, s)
       | Some req \<Rightarrow>
          (if Price req \<le>s 0 then (Error ''price must be upper than 0'' 400, s)
           else
            (case filterBankID (BankID req) s of
               ((userID, w), s1) \<Rightarrow>
                 (if userID \<le> 0 then (written w, s1)
                  else
                   (case txScorp (AddCredit_tx userID (Price req) now) s1 of
                      (Some e, s2) \<Rightarrow> (Error ''internal server error'' 500, s2)
                    | (None, s2) \<Rightarrow> (Success, s2)))))))"

subsection \<open>Check\<close>

text \<open>\<open>SELECT credit FROM user WHERE id = ? LIMIT 1 FOR UPDATE\<close>, scanned into \<open>credit\<close>.\<close>

definition select_credit_for_update :: "int \<Rightarrow> session \<Rightarrow> (error + int64) \<times> session" where
  "select_credit_for_update userID s =
    (case db_call s of
       (Some e, s1) \<Rightarrow> (Inl e, s1)
     | (None, s1) \<Rightarrow>
        (case find (\<lambda>u. u_id u = userID) (users (work s1)) of
           None \<Rightarrow> (Inl ErrNoRows, s1)
         | Some u \<Rightarrow> (Inr (credit u), emit [EvLockUser (u_id u)] s1)))"

definition Check_tx :: "int \<Rightarrow> int64 \<Rightarrow> session \<Rightarrow> outcome \<times> session" where
  "Check_tx userID price t =
    (case select_credit_for_update userID t of
       (Inl e, t1) \<Rightarrow> (Returns (Some (Wrap e ''select credit failed'')), t1)
     | (Inr c, t1) \<Rightarrow>
        (if c <s price then (Returns (Some CreditIsInsufficient), t1)
         else (Returns None, t1)))"

definition Check :: "request \<Rightarrow> session \<Rightarrow> response \<times> session" where
  "Check r s =
    (if Method r \<noteq> ''POST'' then (Error ''method not allowed'' 405, s)
     else
      (case payload r of
         None \<Rightarrow> (Error ''can't parse body'' 400, s)
       | Some req \<Rightarrow>
          (if Price req \<le>s 0 then (Error ''price must be upper than 0'' 400, s)
           else
            (case filterBankID (BankID req) s of
               ((userID, w), s1) \<Rightarrow>
                 (if userID \<le> 0 then (written w, s1)
                  else
                   (case txScorp (Check_tx userID (Price req)) s1 of
                      (Some e, s2) \<Rightarrow>
                        (if e = CreditIsInsufficient then (Error ''credit is insufficient'' 200, s2)
                         else (Error ''internal server error'' 500, s2))
                    | (None, s2) \<Rightarrow> (Success, s2)))))))"

subsection \<open>Reserve\<close>

text \<open>\<open>fmt.Sprintf("app:%s, price:%d", ...)\<close> needs the decimal rendering of an integer.\<close>

fun digits10 :: "nat \<Rightarrow> string" where
  "digits10 n = (if n < 10 then [char_of (48 + n)]
                 else digits10 (n div 10) @ [char_of (48 + n mod 10)])"

definition show_int :: "int \<Rightarrow> string" where
  "show_int i = (if i < 0 then ''-'' @ digits10 (nat (- i)) else digits10 (nat i))"

definition pending_withdrawal :: "database \<Rightarrow> int \<Rightarrow> int \<Rightarrow> int" where
  "pending_withdrawal d uid horizon =
     sum_list (map (\<lambda>r. sint (r_amount r))
       (filter (\<lambda>r. r_user_id r = uid \<and> is_minus r \<and> horizon \<le> expire_at r) (reserves d)))"

definition sum_reserved :: "int \<Rightarrow> int \<Rightarrow> session \<Rightarrow> (error + int64) \<times> session" where
  "sum_reserved userID expire s =
    (case db_call s of
       (Some e, s1) \<Rightarrow> (Inl e, s1)
     | (None, s1) \<Rightarrow> (scan_int64 (pending_withdrawal (work s1) userID expire), s1))"

definition insert_reserve ::
  "int \<Rightarrow> int64 \<Rightarrow> string \<Rightarrow> bool \<Rightarrow> int \<Rightarrow> int \<Rightarrow> session \<Rightarrow> error option \<times> session" where
  "insert_reserve userID price memo isMinus now expire s =
    (case db_call s of
       (Some e, s1) \<Rightarrow> (Some e, s1)
     | (None, s1) \<Rightarrow>
        (let d = work s1; rid = next_reserve_id d
         in (None, emit [EvInsertReserve rid]
               (s1\<lparr>work := d\<lparr>reserves := reserves d @
                       [\<lparr>r_id = rid, r_user_id = userID, r_amount = price, r_note = memo,
                         is_minus = isMinus, r_created_at = now, expire_at = expire\<rparr>],
                     next_reserve_id := rid + 1\<rparr>,
                   last_insert_id := rid\<rparr>))))"

definition Reserve_tx :: "int \<Rightarrow> int64 \<Rightarrow> string \<Rightarrow> int \<Rightarrow> session \<Rightarrow> outcome \<times> session" where
  "Reserve_tx userID price memo now t =
    (case lock_user userID t of
       (Some e, t1) \<Rightarrow> (Returns (Some (Wrap e ''select lock failed'')), t1)
     | (None, t1) \<Rightarrow>
        (let expire = now + 60; isMinus = price <s 0 in
         if isMinus then
          (case sum_credit userID t1 of
             (Inl e, t2) \<Rightarrow> (Returns (Some (Wrap e ''calc credit failed'')), t2)
           | (Inr fixed, t2) \<Rightarrow>
              (case sum_reserved userID expire t2 of
                 (Inl e, t3) \<Rightarrow> (Returns (Some (Wrap e ''calc reserve failed'')), t3)
               | (Inr reserved, t3) \<Rightarrow>
                  (if fixed + reserved + price <s 0 then (Returns (Some CreditIsInsufficient), t3)
                   else
                    (case insert_reserve userID price memo isMinus now expire t3 of
                       (Some e, t4) \<Rightarrow> (Returns (Some (Wrap e ''update user.credit failed'')), t4)
                     | (None, t4) \<Rightarrow> (Returns None, t4)))))
         else
          (case insert_reserve userID price memo isMinus now expire t1 of
             (Some e, t4) \<Rightarrow> (Returns (Some (Wrap e ''update user.credit failed'')), t4)
           | (None, t4) \<Rightarrow> (Returns None, t4))))"

definition reserve_ok :: "int \<Rightarrow> response" where
  \<open>reserve_ok rsvID =
     \<lparr>code = 200, body = ''{"status":"ok","reserve_id":'' @ show_int rsvID @ ''}'' @ newline\<rparr>\<close>

definition Reserve :: "int \<Rightarrow> request \<Rightarrow> session \<Rightarrow> response \<times> session" where
  "Reserve now r s =
    (if Method r \<noteq> ''POST'' then (Error ''method not allowed'' 405, s)
     else
      (case payload r of
         None \<Rightarrow> (Error ''can't parse body'' 400, s)
       | Some req \<Rightarrow>
          (if Price req = 0 then (Error ''price is 0'' 400, s)
           else
            (case filterBankID (BankID req) s of
               ((userID, w), s1) \<Rightarrow>
                 (if userID \<le> 0 then (written w, s1)
                  else
                   (let memo = ''app:'' @ AppID req @ '', price:'' @ show_int (sint (Price req)) in
                    case txScorp (Reserve_tx userID (Price req) memo now) s1 of
                      (Some e, s2) \<Rightarrow>
                        (if e = CreditIsInsufficient then (Error ''credit is insufficient'' 200, s2)
                         else (Error ''internal server error'' 500, s2))
                    | (None, s2) \<Rightarrow> (reserve_ok (last_insert_id s2), s2)))))))"

subsection \<open>Commit\<close>

text \<open>
  The statements of the commit and cancel transactions. A query whose rows are read in a
  loop is one call to the store: a failure while iterating is wrapped with the same
  message as a failure of the query. \<open>id IN (...)\<close> is membership in the set of the listed
  values; the rows come back in table order.
\<close>

definition reserves_in :: "int list \<Rightarrow> database \<Rightarrow> reserve list" where
  "reserves_in ids d = filter (\<lambda>r. r_id r \<in> set ids) (reserves d)"

definition live_reserves_in :: "int list \<Rightarrow> int \<Rightarrow> database \<Rightarrow> reserve list" where
  "live_reserves_in ids now d =
     filter (\<lambda>r. r_id r \<in> set ids \<and> now \<le> expire_at r) (reserves d)"

definition count_live_reserves :: "int list \<Rightarrow> int \<Rightarrow> session \<Rightarrow> (error + nat) \<times> session" where
  "count_live_reserves ids now s =
    (case db_call s of
       (Some e, s1) \<Rightarrow> (Inl e, s1)
     | (None, s1) \<Rightarrow> (Inr (length (live_reserves_in ids now (work s1))), s1))"

definition select_reserves_for_update :: "int list \<Rightarrow> session \<Rightarrow> (error + reserve list) \<times> session" where
  "select_reserves_for_update ids s =
    (case db_call s of
       (Some e, s1) \<Rightarrow> (Inl e, s1)
     | (None, s1) \<Rightarrow>
        (let rows = reserves_in ids (work s1)
         in (Inr rows, emit (map (\<lambda>r. EvLockReserve (r_id r)) rows) s1)))"

text \<open>
  \<open>SELECT id FROM user WHERE id IN (...)  LIMIT 1 FOR UPDATE\<close>: a locking read locks the
  rows it reads, and \<open>LIMIT 1\<close> ends the read with the first row found.
\<close>

definition lock_users :: "int list \<Rightarrow> session \<Rightarrow> error option \<times> session" where
  "lock_users userids s =
    (case db_call s of
       (Some e, s1) \<Rightarrow> (Some e, s1)
     | (None, s1) \<Rightarrow>
        (None, emit (map (\<lambda>u. EvLockUser (u_id u))
                 (take 1 (filter (\<lambda>u. u_id u \<in> set userids) (users (work s1))))) s1))"

definition delete_reserves :: "int list \<Rightarrow> session \<Rightarrow> error option \<times> session" where
  "delete_reserves ids s =
    (case db_call s of
       (Some e, s1) \<Rightarrow> (Some e, s1)
     | (None, s1) \<Rightarrow>
        (None, emit [EvDeleteReserve ids]
           (s1\<lparr>work := (work s1)\<lparr>reserves :=
              filter (\<lambda>r. r_id r \<notin> set ids) (reserves (work s1))\<rparr>\<rparr>)))"

text \<open>The loop over the materialised reservations; it stops at the first error.\<close>

fun apply_reserves :: "reserve list \<Rightarrow> int \<Rightarrow> session \<Rightarrow> error option \<times> session" where
  "apply_reserves [] now s = (None, s)"
| "apply_reserves (rsv # rest) now s =
    (case modyfyCredit (r_user_id rsv) (r_amount rsv) (r_note rsv) now s of
       (Some e, s1) \<Rightarrow> (Some (Wrap e ''modyfyCredit failed''), s1)
     | (None, s1) \<Rightarrow> apply_reserves rest now s1)"

text \<open>
  \<open>g\<close> is what other transactions commit between the count and the locking read, the
  window the second length check of the source is written for.
\<close>

definition Commit_tx ::
  "(database \<Rightarrow> database) \<Rightarrow> int \<Rightarrow> int list \<Rightarrow> session \<Rightarrow> outcome \<times> session" where
  "Commit_tx g now ids t =
    (let l = length ids in
     case count_live_reserves ids now t of
       (Inl e, t1) \<Rightarrow> (Returns (Some (Wrap e ''count reserve failed'')), t1)
     | (Inr count, t1) \<Rightarrow>
        (if count < l then (Returns (Some ReserveIsExpires), t1)
         else
          (case select_reserves_for_update ids (others g t1) of
             (Inl e, t2) \<Rightarrow> (Returns (Some (Wrap e ''select reserves failed'')), t2)
           | (Inr rsvs, t2) \<Rightarrow>
              (if length rsvs \<noteq> l then (Returns (Some ReserveIsAlreadyCommited), t2)
               else
                (case lock_users (map r_user_id rsvs) t2 of
                   (Some e, t3) \<Rightarrow> (Returns (Some (Wrap e ''select lock failed'')), t3)
                 | (None, t3) \<Rightarrow>
                    (case apply_reserves rsvs now t3 of
                       (Some e, t4) \<Rightarrow> (Returns (Some e), t4)
                     | (None, t4) \<Rightarrow>
                        (case delete_reserves ids t4 of
                           (Some e, t5) \<Rightarrow> (Returns (Some (Wrap e ''delete reserve failed'')), t5)
                         | (None, t5) \<Rightarrow> (Returns None, t5))))))))"

definition Commit ::
  "(database \<Rightarrow> database) \<Rightarrow> int \<Rightarrow> request \<Rightarrow> session \<Rightarrow> response \<times> session" where
  "Commit g now r s =
    (if Method r \<noteq> ''POST'' then (Error ''method not allowed'' 405, s)
     else
      (case payload r of
         None \<Rightarrow> (Error ''can't parse body'' 400, s)
       | Some req \<Rightarrow>
          (if length (ReserveIDs req) = 0 then (Error ''reserve_ids is required'' 400, s)
           else
            (case txScorp (Commit_tx g now (ReserveIDs req)) s of
               (Some e, s1) \<Rightarrow>
                 (if e = ReserveIsExpires \<or> e = ReserveIsAlreadyCommited
                  then (Error (error_text e) 400, s1)
                  else (Error ''internal server error'' 500, s1))
             | (None, s1) \<Rightarrow> (Success, s1)))))"

subsection \<open>Cancel\<close>

definition count_reserves :: "int list \<Rightarrow> session \<Rightarrow> (error + nat) \<times> session" where
  "count_reserves ids s =
    (case db_call s of
       (Some e, s1) \<Rightarrow> (Inl e, s1)
     | (None, s1) \<Rightarrow> (Inr (length (reserves_in ids (work s1))), s1))"

definition Cancel_tx :: "(database \<Rightarrow> database) \<Rightarrow> int list \<Rightarrow> session \<Rightarrow> outcome \<times> session" where
  "Cancel_tx g ids t =
    (let l = length ids in
     case count_reserves ids t of
       (Inl e, t1) \<Rightarrow> (Returns (Some (Wrap e ''count reserve failed'')), t1)
     | (Inr count, t1) \<Rightarrow>
        (if count < l then (Returns (Some ReserveIsAlreadyCommited), t1)
         else
          (case select_reserves_for_update ids (others g t1) of
             (Inl e, t2) \<Rightarrow> (Returns (Some (Wrap e ''select reserves failed'')), t2)
           | (Inr rsvs, t2) \<Rightarrow>
              (if length rsvs \<noteq> l then (Returns (Some ReserveIsAlreadyCommited), t2)
               else
                (case lock_users (map r_user_id rsvs) t2 of
                   (Some e, t3) \<Rightarrow> (Returns (Some (Wrap e ''select lock failed'')), t3)
                 | (None, t3) \<Rightarrow>
                    (case delete_reserves ids t3 of
                       (Some e, t5) \<Rightarrow> (Returns (Some (Wrap e ''delete reserve failed'')), t5)
                     | (None, t5) \<Rightarrow> (Returns None, t5)))))))"

definition Cancel :: "(database \<Rightarrow> database) \<Rightarrow> request \<Rightarrow> session \<Rightarrow> response \<times> session" where
  "Cancel g r s =
    (if Method r \<noteq> ''POST'' then (Error ''method not allowed'' 405, s)
     else
      (case payload r of
         None \<Rightarrow> (Error ''can't parse body'' 400, s)
       | Some req \<Rightarrow>
          (if length (ReserveIDs req) = 0 then (Error ''reserve_ids is required'' 400, s)
           else
            (case txScorp (Cancel_tx g (ReserveIDs req)) s of
               (Some e, s1) \<Rightarrow>
                 (if e = ReserveIsExpires \<or> e = ReserveIsAlreadyCommited
                  then (Error (error_text e) 400, s1)
                  else (Error ''internal server error'' 500, s1))
             | (None, s1) \<Rightarrow> (Success, s1)))))"

subsection \<open>NewServer\<close>

text \<open>
  The routing table. A call is served in an environment: what other transactions commit
  while it runs (\<open>g\<close>) and the clock (\<open>now\<close>). \<open>serve\<close> handles calls one after another.
\<close>

definition NewServer ::
  "(database \<Rightarrow> database) \<Rightarrow> int \<Rightarrow> string \<Rightarrow> request \<Rightarrow> session \<Rightarrow> response \<times> session" where
  "NewServer g now path r s =
    (if path = ''/register'' then Register now r s
     else if path = ''/add_credit'' then AddCredit now r s
     else if path = ''/check'' then Check r s
     else if path = ''/reserve'' then Reserve now r s
     else if path = ''/commit'' then Commit g now r s
     else if path = ''/cancel'' then Cancel g r s
     else (Error ''Not found'' 404, s))"

fun serve ::
  "((database \<Rightarrow> database) \<times> int \<times> string \<times> request) list \<Rightarrow> session \<Rightarrow> session" where
  "serve [] s = s"
| "serve ((g, now, path, r) # calls) s = serve calls (snd (NewServer g now path r s))"

subsection \<open>Properties of states and traces\<close>

text \<open>
  \<open>I1\<close> is the cache invariant. \<open>consistent\<close> adds what makes it inductive: every key of
  a user that occurs in a table has been handed out already.
\<close>

definition I1 :: "database \<Rightarrow> bool" where
  "I1 d = (\<forall>u \<in> set (users d). sint (credit u) = ledger_balance d (u_id u))"

definition consistent :: "database \<Rightarrow> bool" where
  "consistent d =
     (I1 d
      \<and> (\<forall>u \<in> set (users d). u_id u < next_user_id d)
      \<and> (\<forall>c \<in> set (credits d). c_user_id c < next_user_id d)
      \<and> (\<forall>r \<in> set (reserves d). r_user_id r < next_user_id d))"

fun is_write :: "event \<Rightarrow> bool" where
  "is_write (EvInsertUser _) = True"
| "is_write (EvInsertCredit _) = True"
| "is_write (EvUpdateCredit _) = True"
| "is_write (EvInsertReserve _) = True"
| "is_write (EvDeleteReserve _) = True"
| "is_write _ = False"

definition entry_of :: "int \<Rightarrow> reserve \<Rightarrow> credit_entry" where
  "entry_of now r =
     \<lparr>c_user_id = r_user_id r, c_amount = r_amount r, c_note = r_note r, c_created_at = now\<rparr>"

declare digits10.simps [simp del]

subsection \<open>Concrete states\<close>

text \<open>
  Two users with 500 each and two reservations made at second 5 (a withdrawal of 300 from
  the first user, a deposit of 300 to the second), as in the multi-party scenario.
\<close>

definition empty_db :: database where
  "empty_db = \<lparr>users = [], credits = [], reserves = [], next_user_id = 1, next_reserve_id = 1\<rparr>"

definition session_of :: "database \<Rightarrow> error option list \<Rightarrow> session" where
  "session_of d fl = \<lparr>store = d, work = d, faults = fl, trace = [], last_insert_id = 0\<rparr>"

definition bank2 :: database where
  "bank2 =
    \<lparr>users = [\<lparr>u_id = 1, bank_id = ''c'', credit = 500, u_created_at = 0\<rparr>,
              \<lparr>u_id = 2, bank_id = ''d'', credit = 500, u_created_at = 0\<rparr>],
     credits = [\<lparr>c_user_id = 1, c_amount = 500, c_note = ''by add credit API'', c_created_at = 1\<rparr>,
                \<lparr>c_user_id = 2, c_amount = 500, c_note = ''by add credit API'', c_created_at = 1\<rparr>],
     reserves = [\<lparr>r_id = 1, r_user_id = 1, r_amount = - 300, r_note = ''app:x, price:-300'',
                  is_minus = True, r_created_at = 5, expire_at = 65\<rparr>,
                 \<lparr>r_id = 2, r_user_id = 2, r_amount = 300, r_note = ''app:x, price:300'',
                  is_minus = False, r_created_at = 5, expire_at = 65\<rparr>],
     next_user_id = 3, next_reserve_id = 3\<rparr>"

definition post :: "string \<Rightarrow> string \<Rightarrow> int64 \<Rightarrow> int list \<Rightarrow> request" where
  "post a b p ids =
     \<lparr>Method = ''POST'', payload = Some \<lparr>AppID = a, BankID = b, Price = p, ReserveIDs = ids\<rparr>\<rparr>"

section \<open>Auxiliary facts\<close>

lemma db_call_ok: "faults s = [] \<Longrightarrow> db_call s = (None, s)"
  by (simp add: db_call_def)

lemma db_call_tables [simp]:
  "store (snd (db_call s)) = store s" "work (snd (db_call s)) = work s"
  "trace (snd (db_call s)) = trace s"
  by (simp_all add: db_call_def split: list.splits)

lemma emit_fields [simp]:
  "faults (emit evs s) = faults s" "store (emit evs s) = store s" "work (emit evs s) = work s"
  "trace (emit evs s) = trace s @ evs" "last_insert_id (emit evs s) = last_insert_id s"
  by (simp_all add: emit_def)

lemma others_fields [simp]:
  "faults (others g s) = faults s" "store (others g s) = g (store s)"
  "work (others g s) = g (work s)" "trace (others g s) = trace s"
  by (simp_all add: others_def)

lemma find_by_key:
  "distinct (map f xs) \<Longrightarrow> x \<in> set xs \<Longrightarrow> find (\<lambda>v. f v = f x) xs = Some x"
  by (induction xs) auto

lemma find_in_set: "find P xs = Some x \<Longrightarrow> x \<in> set xs"
  by (induction xs) (auto split: if_splits)

subsection \<open>Counting rows by key\<close>

lemma length_filter_keys_le:
  assumes "distinct (map f xs)"
  shows "length (filter (\<lambda>x. f x \<in> set ks) xs) \<le> card (set ks)"
proof -
  have d: "distinct (map f (filter (\<lambda>x. f x \<in> set ks) xs))"
    using assms by (simp add: distinct_map_filter)
  have "length (filter (\<lambda>x. f x \<in> set ks) xs) = card (set (map f (filter (\<lambda>x. f x \<in> set ks) xs)))"
    using distinct_card[OF d] by simp
  also have "\<dots> \<le> card (set ks)"
    by (rule card_mono) auto
  finally show ?thesis .
qed

lemma length_filter_keys_eq:
  assumes "distinct (map f xs)" and "set ks \<subseteq> f ` set xs"
  shows "length (filter (\<lambda>x. f x \<in> set ks) xs) = card (set ks)"
proof -
  have d: "distinct (map f (filter (\<lambda>x. f x \<in> set ks) xs))"
    using assms(1) by (simp add: distinct_map_filter)
  have "set (map f (filter (\<lambda>x. f x \<in> set ks) xs)) = set ks"
    using assms(2) by auto
  then show ?thesis
    using distinct_card[OF d] by simp
qed

lemma duplicates_fall_short:
  assumes "distinct (map r_id (reserves d))" and "\<not> distinct ids"
  shows "length (reserves_in ids d) < length ids"
    and "length (live_reserves_in ids now d) < length ids"
proof -
  have c: "card (set ids) < length ids"
    using assms(2) card_length[of ids] distinct_card[of ids] card_distinct[of ids]
    by (cases "card (set ids) = length ids") auto
  have a: "length (reserves_in ids d) \<le> card (set ids)"
    unfolding reserves_in_def by (rule length_filter_keys_le[OF assms(1)])
  have "length (live_reserves_in ids now d) \<le> length (reserves_in ids d)"
  proof -
    have "length (filter (\<lambda>r. r_id r \<in> set ids \<and> now \<le> expire_at r) xs)
            \<le> length (filter (\<lambda>r. r_id r \<in> set ids) xs)" for xs :: "reserve list"
      by (induction xs) auto
    then show ?thesis
      by (simp add: live_reserves_in_def reserves_in_def)
  qed
  with a c show "length (reserves_in ids d) < length ids"
    and "length (live_reserves_in ids now d) < length ids"
    by simp_all
qed

subsection \<open>The statements when the store answers\<close>

lemma count_live_reserves_ok:
  "faults s = [] \<Longrightarrow>
   count_live_reserves ids now s = (Inr (length (live_reserves_in ids now (work s))), s)"
  by (simp add: count_live_reserves_def db_call_ok)

lemma count_reserves_ok:
  "faults s = [] \<Longrightarrow> count_reserves ids s = (Inr (length (reserves_in ids (work s))), s)"
  by (simp add: count_reserves_def db_call_ok)

lemma select_reserves_for_update_ok:
  "faults s = [] \<Longrightarrow>
   select_reserves_for_update ids s =
     (Inr (reserves_in ids (work s)),
      emit (map (\<lambda>r. EvLockReserve (r_id r)) (reserves_in ids (work s))) s)"
  by (simp add: select_reserves_for_update_def db_call_ok Let_def)

lemma txScorp_fails:
  assumes "faults s = []"
      and "f (emit [EvBegin] (s\<lparr>work := store s\<rparr>)) = (Returns (Some e), t)"
  shows "txScorp f s = (Some e, emit [EvRollback] (t\<lparr>work := store t\<rparr>))"
  using assms by (simp add: txScorp_def db_call_ok)

lemma Commit_tx_expired:
  assumes "faults t = []" and "length (live_reserves_in ids now (work t)) < length ids"
  shows "Commit_tx g now ids t = (Returns (Some ReserveIsExpires), t)"
  using assms by (simp add: Commit_tx_def count_live_reserves_ok)

lemma Commit_tx_gone:
  assumes "faults t = []" and "\<not> length (live_reserves_in ids now (work t)) < length ids"
      and "length (reserves_in ids (g (work t))) \<noteq> length ids"
  shows "Commit_tx g now ids t =
           (Returns (Some ReserveIsAlreadyCommited),
            emit (map (\<lambda>r. EvLockReserve (r_id r)) (reserves_in ids (g (work t)))) (others g t))"
  using assms
  by (simp add: Commit_tx_def count_live_reserves_ok select_reserves_for_update_ok)

lemma Cancel_tx_missing:
  assumes "faults t = []" and "length (reserves_in ids (work t)) < length ids"
  shows "Cancel_tx g ids t = (Returns (Some ReserveIsAlreadyCommited), t)"
  using assms by (simp add: Cancel_tx_def count_reserves_ok)

lemma Commit_expired:
  assumes "Method r = ''POST''" and "payload r = Some p" and "ReserveIDs p \<noteq> []"
      and "faults s = []"
      and "length (live_reserves_in (ReserveIDs p) now (store s)) < length (ReserveIDs p)"
  shows "Commit g now r s =
           (Error ''reserve is already expired'' 400,
            emit [EvRollback] (emit [EvBegin] (s\<lparr>work := store s\<rparr>)))"
proof -
  let ?t0 = "emit [EvBegin] (s\<lparr>work := store s\<rparr>)"
  have "Commit_tx g now (ReserveIDs p) ?t0 = (Returns (Some ReserveIsExpires), ?t0)"
    using assms(4,5) by (intro Commit_tx_expired) simp_all
  from txScorp_fails[of s "Commit_tx g now (ReserveIDs p)", OF assms(4) this] show ?thesis
    using assms(1,2,3) by (simp add: Commit_def emit_def)
qed

lemma Commit_gone:
  assumes "Method r = ''POST''" and "payload r = Some p" and "ReserveIDs p \<noteq> []"
      and "faults s = []"
      and "\<not> length (live_reserves_in (ReserveIDs p) now (store s)) < length (ReserveIDs p)"
      and "length (reserves_in (ReserveIDs p) (g (store s))) \<noteq> length (ReserveIDs p)"
  shows "Commit g now r s =
           (Error ''reserve is already commited'' 400,
            emit [EvRollback]
              (emit (map (\<lambda>r. EvLockReserve (r_id r)) (reserves_in (ReserveIDs p) (g (store s))))
                 (emit [EvBegin] (s\<lparr>store := g (store s), work := g (store s)\<rparr>))))"
proof -
  let ?t0 = "emit [EvBegin] (s\<lparr>work := store s\<rparr>)"
  have "Commit_tx g now (ReserveIDs p) ?t0 =
          (Returns (Some ReserveIsAlreadyCommited),
           emit (map (\<lambda>r. EvLockReserve (r_id r)) (reserves_in (ReserveIDs p) (g (work ?t0))))
             (others g ?t0))"
    using assms(4,5,6) by (intro Commit_tx_gone) simp_all
  from txScorp_fails[of s "Commit_tx g now (ReserveIDs p)", OF assms(4) this] show ?thesis
    using assms(1,2,3) by (simp add: Commit_def emit_def others_def)
qed

lemma Cancel_missing:
  assumes "Method r = ''POST''" and "payload r = Some p" and "ReserveIDs p \<noteq> []"
      and "faults s = []"
      and "length (reserves_in (ReserveIDs p) (store s)) < length (ReserveIDs p)"
  shows "Cancel g r s =
           (Error ''reserve is already commited'' 400,
            emit [EvRollback] (emit [EvBegin] (s\<lparr>work := store s\<rparr>)))"
proof -
  let ?t0 = "emit [EvBegin] (s\<lparr>work := store s\<rparr>)"
  have "Cancel_tx g (ReserveIDs p) ?t0 = (Returns (Some ReserveIsAlreadyCommited), ?t0)"
    using assms(4,5) by (intro Cancel_tx_missing) simp_all
  from txScorp_fails[of s "Cancel_tx g (ReserveIDs p)", OF assms(4) this] show ?thesis
    using assms(1,2,3) by (simp add: Cancel_def emit_def)
qed

subsection \<open>Check\<close>

text \<open>A closure that writes nothing leaves the committed tables as they were.\<close>

lemma txScorp_read_only:
  assumes "\<And>t. store (snd (f t)) = store t \<and> work (snd (f t)) = work t"
  shows "store (snd (txScorp f s)) = store s"
proof -
  obtain e s1 where b: "db_call s = (e, s1)" by (cases "db_call s")
  have s1: "store s1 = store s" using db_call_tables(1)[of s] b by simp
  let ?t0 = "emit [EvBegin] (s1\<lparr>work := store s1\<rparr>)"
  obtain out t where f: "f ?t0 = (out, t)" by (cases "f ?t0")
  have t: "store t = store s" "work t = store s"
    using assms[of ?t0] f s1 by simp_all
  obtain e2 t1 where c: "db_call t = (e2, t1)" by (cases "db_call t")
  have t1: "store t1 = store s" "work t1 = store s"
    using db_call_tables(1,2)[of t] c t by simp_all
  show ?thesis
    using b s1 f t c t1
    by (simp add: txScorp_def split: option.splits outcome.splits)
qed

lemma Check_tx_read_only:
  "store (snd (Check_tx uid price t)) = store t \<and> work (snd (Check_tx uid price t)) = work t"
  by (simp add: Check_tx_def select_credit_for_update_def db_call_def
      split: list.splits option.splits)

lemma filterBankID_tables [simp]:
  "store (snd (filterBankID b s)) = store s"
  by (simp add: filterBankID_def db_call_def split: list.splits option.splits)

lemma filterBankID_storeD: "filterBankID b s = (x, s1) \<Longrightarrow> store s1 = store s"
  using filterBankID_tables[of b s] by simp

lemma filterBankID_found:
  assumes "faults s = []" and "b \<noteq> []"
      and "find (\<lambda>u. bank_id u = b) (users (store s)) = Some u"
  shows "filterBankID b s = ((u_id u, None), s)"
  using assms by (simp add: filterBankID_def db_call_ok)

subsection \<open>The concrete states\<close>

lemma post_fields [simp]:
  "Method (post a b p ids) = ''POST''"
  "payload (post a b p ids) = Some \<lparr>AppID = a, BankID = b, Price = p, ReserveIDs = ids\<rparr>"
  by (simp_all add: post_def)

lemma session_of_fields [simp]:
  "store (session_of d fl) = d" "work (session_of d fl) = d" "faults (session_of d fl) = fl"
  "trace (session_of d fl) = []" "last_insert_id (session_of d fl) = 0"
  by (simp_all add: session_of_def)

lemma Error_not_Success [simp]: "Error m c \<noteq> Success" "Success \<noteq> Error m c"
  by (simp_all add: Error_def Success_def ResError_def ResOK_def)

lemma db_callD:
  "db_call s = (r, s1) \<Longrightarrow> store s1 = store s \<and> work s1 = work s \<and> trace s1 = trace s"
  by (auto simp: db_call_def split: list.splits)

lemma scan_int64_Inr: "scan_int64 x = Inr v \<Longrightarrow> sint v = x"
  by (auto simp: scan_int64_def sint_sbintrunc' signed_take_bit_int_eq_self split: if_splits)

subsection \<open>What each statement leaves behind\<close>

lemma insert_creditD:
  "insert_credit uid price memo now s = (e, s1) \<Longrightarrow>
     store s1 = store s \<and>
     (e = None \<longrightarrow> work s1 = (work s)\<lparr>credits := credits (work s) @
        [\<lparr>c_user_id = uid, c_amount = price, c_note = memo, c_created_at = now\<rparr>]\<rparr>)"
  by (auto simp: insert_credit_def db_call_def emit_def split: list.splits option.splits)

lemma sum_creditD:
  "sum_credit uid s = (r, s1) \<Longrightarrow>
     store s1 = store s \<and> work s1 = work s \<and>
     (\<forall>v. r = Inr v \<longrightarrow> sint v = ledger_balance (work s) uid)"
  by (auto simp: sum_credit_def db_call_def split: list.splits option.splits
      dest: scan_int64_Inr)

lemma update_creditD:
  "update_credit v uid s = (e, s1) \<Longrightarrow>
     store s1 = store s \<and>
     (e = None \<longrightarrow> work s1 = (work s)\<lparr>users :=
        map (\<lambda>u. if u_id u = uid then u\<lparr>credit := v\<rparr> else u) (users (work s))\<rparr>)"
  by (auto simp: update_credit_def db_call_def emit_def split: list.splits option.splits)

lemma lock_userD:
  "lock_user uid s = (e, s1) \<Longrightarrow> store s1 = store s \<and> work s1 = work s"
  by (auto simp: lock_user_def db_call_def emit_def split: list.splits option.splits)

lemma sum_reservedD:
  "sum_reserved uid h s = (r, s1) \<Longrightarrow> store s1 = store s \<and> work s1 = work s"
  by (auto simp: sum_reserved_def db_call_def split: list.splits option.splits)

lemma insert_reserveD:
  "insert_reserve uid price memo m now ex s = (e, s1) \<Longrightarrow>
     store s1 = store s \<and>
     (e = None \<longrightarrow> work s1 = (work s)\<lparr>reserves := reserves (work s) @
        [\<lparr>r_id = next_reserve_id (work s), r_user_id = uid, r_amount = price, r_note = memo,
          is_minus = m, r_created_at = now, expire_at = ex\<rparr>],
        next_reserve_id := next_reserve_id (work s) + 1\<rparr>)"
  by (auto simp: insert_reserve_def db_call_def emit_def Let_def split: list.splits option.splits)

lemma count_live_reservesD:
  "count_live_reserves ids now s = (r, s1) \<Longrightarrow>
     store s1 = store s \<and> work s1 = work s \<and>
     (\<forall>n. r = Inr n \<longrightarrow> n = length (live_reserves_in ids now (work s)))"
  by (auto simp: count_live_reserves_def db_call_def split: list.splits option.splits)

lemma count_reservesD:
  "count_reserves ids s = (r, s1) \<Longrightarrow>
     store s1 = store s \<and> work s1 = work s \<and>
     (\<forall>n. r = Inr n \<longrightarrow> n = length (reserves_in ids (work s)))"
  by (auto simp: count_reserves_def db_call_def split: list.splits option.splits)

lemma select_reserves_for_updateD:
  "select_reserves_for_update ids s = (r, s1) \<Longrightarrow>
     store s1 = store s \<and> work s1 = work s \<and>
     (\<forall>rows. r = Inr rows \<longrightarrow> rows = reserves_in ids (work s))"
  by (auto simp: select_reserves_for_update_def db_call_def emit_def Let_def
      split: list.splits option.splits)

lemma lock_usersD:
  "lock_users ids s = (e, s1) \<Longrightarrow> store s1 = store s \<and> work s1 = work s"
  by (auto simp: lock_users_def db_call_def emit_def split: list.splits option.splits)

lemma delete_reservesD:
  "delete_reserves ids s = (e, s1) \<Longrightarrow>
     store s1 = store s \<and>
     (e = None \<longrightarrow> work s1 = (work s)\<lparr>reserves :=
        filter (\<lambda>r. r_id r \<notin> set ids) (reserves (work s))\<rparr>)"
  by (auto simp: delete_reserves_def db_call_def emit_def split: list.splits option.splits)

text \<open>modyfyCredit: on success the ledger has one more entry and the cache of that user is
  the new ledger sum.\<close>

lemma modyfyCreditD:
  assumes "modyfyCredit uid price memo now s = (e, s1)"
  shows "store s1 = store s"
    and "e = None \<Longrightarrow> \<exists>v.
           sint v = ledger_balance ((work s)\<lparr>credits := credits (work s) @
              [\<lparr>c_user_id = uid, c_amount = price, c_note = memo, c_created_at = now\<rparr>]\<rparr>) uid
         \<and> work s1 = (work s)\<lparr>credits := credits (work s) @
              [\<lparr>c_user_id = uid, c_amount = price, c_note = memo, c_created_at = now\<rparr>],
             users := map (\<lambda>u. if u_id u = uid then u\<lparr>credit := v\<rparr> else u) (users (work s))\<rparr>"
proof -
  obtain e1 t1 where a: "insert_credit uid price memo now s = (e1, t1)"
    by (cases "insert_credit uid price memo now s")
  obtain r2 t2 where b: "sum_credit uid t1 = (r2, t2)" by (cases "sum_credit uid t1")
  note A = insert_creditD[OF a] and B = sum_creditD[OF b]
  show "store s1 = store s"
    using assms a b A B
    by (auto simp: modyfyCredit_def split: option.splits sum.splits prod.splits
        dest!: update_creditD)
  assume "e = None"
  then show "\<exists>v.
           sint v = ledger_balance ((work s)\<lparr>credits := credits (work s) @
              [\<lparr>c_user_id = uid, c_amount = price, c_note = memo, c_created_at = now\<rparr>]\<rparr>) uid
         \<and> work s1 = (work s)\<lparr>credits := credits (work s) @
              [\<lparr>c_user_id = uid, c_amount = price, c_note = memo, c_created_at = now\<rparr>],
             users := map (\<lambda>u. if u_id u = uid then u\<lparr>credit := v\<rparr> else u) (users (work s))\<rparr>"
    using assms a b A B
    by (auto simp: modyfyCredit_def split: option.splits sum.splits prod.splits
        dest!: update_creditD)
qed

lemma apply_reserves_step:
  assumes "modyfyCredit (r_user_id rsv) (r_amount rsv) (r_note rsv) now s = (e0, s0)"
  shows "apply_reserves (rsv # rest) now s =
      (case e0 of None \<Rightarrow> apply_reserves rest now s0
       | Some x \<Rightarrow> (Some (Wrap x ''modyfyCredit failed''), s0))"
  by (simp add: assms)

lemma apply_reserves_store:
  "apply_reserves rsvs now s = (e, s1) \<Longrightarrow> store s1 = store s"
proof (induction rsvs arbitrary: s)
  case Nil
  then show ?case by simp
next
  case (Cons rsv rest)
  obtain e0 s0 where m: "modyfyCredit (r_user_id rsv) (r_amount rsv) (r_note rsv) now s = (e0, s0)"
    by (cases "modyfyCredit (r_user_id rsv) (r_amount rsv) (r_note rsv) now s")
  note M = modyfyCreditD(1)[OF m]
  from Cons.prems have x: "(case e0 of None \<Rightarrow> apply_reserves rest now s0
       | Some x \<Rightarrow> (Some (Wrap x ''modyfyCredit failed''), s0)) = (e, s1)"
    unfolding apply_reserves_step[OF m] .
  show ?case
  proof (cases e0)
    case None
    with x have "apply_reserves rest now s0 = (e, s1)" by simp
    from Cons.IH[OF this] M show ?thesis by simp
  next
    case (Some y)
    with x M show ?thesis by auto
  qed
qed

lemma apply_reserves_work:
  "apply_reserves rsvs now s = (None, s1) \<Longrightarrow>
     credits (work s1) = credits (work s) @ map (entry_of now) rsvs
     \<and> reserves (work s1) = reserves (work s)"
proof (induction rsvs arbitrary: s)
  case Nil
  then show ?case by simp
next
  case (Cons rsv rest)
  obtain e0 s0 where m: "modyfyCredit (r_user_id rsv) (r_amount rsv) (r_note rsv) now s = (e0, s0)"
    by (cases "modyfyCredit (r_user_id rsv) (r_amount rsv) (r_note rsv) now s")
  from Cons.prems have x: "(case e0 of None \<Rightarrow> apply_reserves rest now s0
       | Some x \<Rightarrow> (Some (Wrap x ''modyfyCredit failed''), s0)) = (None, s1)"
    unfolding apply_reserves_step[OF m] .
  show ?case
  proof (cases e0)
    case None
    with x have r: "apply_reserves rest now s0 = (None, s1)" by simp
    from modyfyCreditD(2)[OF m None] obtain v where
      w: "work s0 = (work s)\<lparr>credits := credits (work s) @
            [\<lparr>c_user_id = r_user_id rsv, c_amount = r_amount rsv, c_note = r_note rsv,
              c_created_at = now\<rparr>],
           users := map (\<lambda>u. if u_id u = r_user_id rsv then u\<lparr>credit := v\<rparr> else u)
                      (users (work s))\<rparr>"
      by blast
    from Cons.IH[OF r] w show ?thesis by (simp add: entry_of_def)
  next
    case (Some y)
    with x show ?thesis by simp
  qed
qed

text \<open>The commit transaction: where it can leave the committed tables, and what a nil
  return means for the working tables.\<close>

lemma Commit_txD:
  assumes "Commit_tx g now ids t = (out, t1)"
  shows "store t1 = store t \<or> store t1 = g (store t)"
    and "out = Returns None \<Longrightarrow>
           store t1 = g (store t)
         \<and> \<not> length (live_reserves_in ids now (work t)) < length ids
         \<and> length (reserves_in ids (g (work t))) = length ids
         \<and> credits (work t1) = credits (g (work t)) @ map (entry_of now) (reserves_in ids (g (work t)))
         \<and> reserves (work t1) = filter (\<lambda>r. r_id r \<notin> set ids) (reserves (g (work t)))"
proof -
  obtain r1 a where c: "count_live_reserves ids now t = (r1, a)"
    by (cases "count_live_reserves ids now t")
  obtain r2 b where s: "select_reserves_for_update ids (others g a) = (r2, b)"
    by (cases "select_reserves_for_update ids (others g a)")
  note C = count_live_reservesD[OF c] and S = select_reserves_for_updateD[OF s]
  let ?rows = "reserves_in ids (g (work t))"
  obtain e3 c3 where l: "lock_users (map r_user_id ?rows) b = (e3, c3)"
    by (cases "lock_users (map r_user_id ?rows) b")
  obtain e4 c4 where ap: "apply_reserves ?rows now c3 = (e4, c4)"
    by (cases "apply_reserves ?rows now c3")
  obtain e5 c5 where d: "delete_reserves ids c4 = (e5, c5)"
    by (cases "delete_reserves ids c4")
  note L = lock_usersD[OF l] and A = apply_reserves_store[OF ap] and D = delete_reservesD[OF d]
  have rows: "r2 = Inr rows \<Longrightarrow> rows = ?rows" for rows
    using S C by simp
  show "store t1 = store t \<or> store t1 = g (store t)"
    using assms c s C S l L ap A d D
    by (auto simp: Commit_tx_def Let_def split: sum.splits if_splits option.splits)
  assume ok: "out = Returns None"
  have w: "e4 = None \<Longrightarrow> credits (work c4) = credits (g (work t)) @ map (entry_of now) ?rows
                       \<and> reserves (work c4) = reserves (g (work t))"
    using apply_reserves_work[of ?rows now c3 c4] ap L S C by simp
  show "store t1 = g (store t)
         \<and> \<not> length (live_reserves_in ids now (work t)) < length ids
         \<and> length (reserves_in ids (g (work t))) = length ids
         \<and> credits (work t1) = credits (g (work t)) @ map (entry_of now) (reserves_in ids (g (work t)))
         \<and> reserves (work t1) = filter (\<lambda>r. r_id r \<notin> set ids) (reserves (g (work t)))"
    using assms ok c s C S l L ap A d D w
    by (auto simp: Commit_tx_def Let_def split: sum.splits if_splits option.splits)
qed

subsection \<open>How txScorp ends\<close>

lemma txScorp_NoneD:
  assumes "txScorp f s = (None, s')"
  shows "\<exists>t0 t. store t0 = store s \<and> work t0 = store s \<and> f t0 = (Returns None, t)
               \<and> store s' = work t"
proof -
  obtain e s1 where b: "db_call s = (e, s1)" by (cases "db_call s")
  note B = db_callD[OF b]
  let ?t0 = "emit [EvBegin] (s1\<lparr>work := store s1\<rparr>)"
  obtain out t where f: "f ?t0 = (out, t)" by (cases "f ?t0")
  obtain e2 t1 where c: "db_call t = (e2, t1)" by (cases "db_call t")
  note C = db_callD[OF c]
  have "out = Returns None \<and> store s' = work t"
    using assms b f c C
    by (auto simp: txScorp_def split: option.splits outcome.splits)
  moreover have "store ?t0 = store s" "work ?t0 = store s" using B by simp_all
  ultimately show ?thesis using f by blast
qed

lemma txScorp_SomeD:
  assumes "txScorp f s = (Some e, s')"
  shows "store s' = store s \<or>
         (\<exists>t0 out t. store t0 = store s \<and> work t0 = store s \<and> f t0 = (out, t)
                    \<and> store s' = store t)"
proof -
  obtain e0 s1 where b: "db_call s = (e0, s1)" by (cases "db_call s")
  note B = db_callD[OF b]
  let ?t0 = "emit [EvBegin] (s1\<lparr>work := store s1\<rparr>)"
  obtain out t where f: "f ?t0 = (out, t)" by (cases "f ?t0")
  obtain e2 t1 where c: "db_call t = (e2, t1)" by (cases "db_call t")
  note C = db_callD[OF c]
  have "store s' = store s \<or> store s' = store t"
    using assms b B f c C
    by (auto simp: txScorp_def split: option.splits outcome.splits)
  moreover have "store ?t0 = store s" "work ?t0 = store s" using B by simp_all
  ultimately show ?thesis using f by blast
qed

lemma Commit_SuccessD:
  assumes "fst (Commit g now r s) = Success"
  shows "\<exists>p s'. payload r = Some p \<and> ReserveIDs p \<noteq> []
           \<and> txScorp (Commit_tx g now (ReserveIDs p)) s = (None, s')
           \<and> snd (Commit g now r s) = s'"
  using assms
  by (auto simp: Commit_def split: if_splits option.splits prod.splits)

lemma Commit_failureD:
  assumes "fst (Commit g now r s) \<noteq> Success"
  shows "snd (Commit g now r s) = s \<or>
         (\<exists>p e s'. payload r = Some p
           \<and> txScorp (Commit_tx g now (ReserveIDs p)) s = (Some e, s')
           \<and> snd (Commit g now r s) = s')"
  using assms
  by (auto simp: Commit_def split: if_splits option.splits prod.splits)

section \<open>The scoped transaction\<close>

text \<open>
  C9. Once the transaction has begun, \<open>txScorp\<close> ends it with exactly one event after
  the closure is done, a commit or a rollback. It rolls back, and applies nothing, when
  the closure returns an error or panics; a commit is issued only when the closure
  returned nil; an error returned by the closure comes back as the very same value; a
  panic comes back as the internal error built from the panic value.
\<close>

theorem txScorp_ends_once:
  assumes "db_call s = (None, s1)"
      and "f (emit [EvBegin] (s1\<lparr>work := store s1\<rparr>)) = (out, t)"
      and "txScorp f s = (res, s')"
  shows "(trace s' = trace t @ [EvCommit] \<or> trace s' = trace t @ [EvRollback])
       \<and> (out \<noteq> Returns None \<longrightarrow> trace s' = trace t @ [EvRollback] \<and> store s' = store t)
       \<and> (trace s' = trace t @ [EvCommit] \<longrightarrow> out = Returns None)
       \<and> (res = None \<longrightarrow> out = Returns None \<and> store s' = work t)
       \<and> (\<forall>e. out = Returns (Some e) \<longrightarrow> res = Some e)
       \<and> (\<forall>v. out = Panics v \<longrightarrow> res = Some (PanicInTransaction v))"
  using assms
  by (auto simp: txScorp_def emit_def db_call_def
           split: prod.splits option.splits outcome.splits list.splits)

theorem txScorp_ends_once_witness:
  "fst (txScorp (\<lambda>t. (Panics ''nil map'', snd (insert_credit 1 5 ''x'' 0 t))) (session_of bank2 []))
     = Some (PanicInTransaction ''nil map'')
   \<and> store (snd (txScorp (\<lambda>t. (Panics ''nil map'', snd (insert_credit 1 5 ''x'' 0 t)))
        (session_of bank2 []))) = bank2
   \<and> trace (snd (txScorp (\<lambda>t. (Panics ''nil map'', snd (insert_credit 1 5 ''x'' 0 t)))
        (session_of bank2 []))) = [EvBegin, EvInsertCredit 1, EvRollback]"
proof -
  let ?s = "session_of bank2 []"
  let ?f = "\<lambda>t. (Panics ''nil map'', snd (insert_credit 1 5 ''x'' 0 t))"
  let ?t = "snd (insert_credit 1 5 ''x'' 0 (emit [EvBegin] (?s\<lparr>work := store ?s\<rparr>)))"
  have b: "db_call ?s = (None, ?s)"
    by (simp add: db_call_def session_of_def)
  have c: "?f (emit [EvBegin] (?s\<lparr>work := store ?s\<rparr>)) = (Panics ''nil map'', ?t)"
    by simp
  have r: "txScorp ?f ?s = (fst (txScorp ?f ?s), snd (txScorp ?f ?s))"
    by simp
  have t: "store ?t = bank2" "trace ?t = [EvBegin, EvInsertCredit 1]"
    by (simp_all add: insert_credit_def db_call_def emit_def session_of_def)
  from txScorp_ends_once [OF b c r] t show ?thesis
    by simp
qed

section \<open>Commit and cancel\<close>

text \<open>
  C10. When the list of reservation ids names an id twice, commit and cancel both fail
  and leave the store as it was, whatever the state of the reservations: the count of
  matching rows cannot reach the length of the list. Commit answers 400 with
  "reserve is already expired", cancel answers 400 with "reserve is already commited".
  The store answers every call, and the reserve table has a primary key.
\<close>

theorem duplicate_ids_rejected:
  assumes "Method r = ''POST''" and "payload r = Some p"
      and "\<not> distinct (ReserveIDs p)"
      and "faults s = []"
      and "distinct (map r_id (reserves (store s)))"
  shows "fst (Commit g now r s) = Error ''reserve is already expired'' 400
       \<and> code (fst (Commit g now r s)) = 400
       \<and> store (snd (Commit g now r s)) = store s
       \<and> fst (Cancel g r s) = Error ''reserve is already commited'' 400
       \<and> code (fst (Cancel g r s)) = 400
       \<and> store (snd (Cancel g r s)) = store s"
proof -
  have ne: "ReserveIDs p \<noteq> []" using assms(3) by auto
  note short = duplicates_fall_short[OF assms(5,3)]
  show ?thesis
    by (simp add: Commit_expired[OF assms(1,2) ne assms(4) short(2)]
          Cancel_missing[OF assms(1,2) ne assms(4) short(1)] Error_def)
qed

theorem duplicate_ids_rejected_witness:
  "fst (Commit id 6 (post ''x'' [] 0 [1, 1]) (session_of bank2 [])) =
      Error ''reserve is already expired'' 400
   \<and> store (snd (Commit id 6 (post ''x'' [] 0 [1, 1]) (session_of bank2 []))) = bank2
   \<and> fst (Cancel id (post ''x'' [] 0 [1, 1]) (session_of bank2 [])) =
      Error ''reserve is already commited'' 400
   \<and> store (snd (Cancel id (post ''x'' [] 0 [1, 1]) (session_of bank2 []))) = bank2"
proof -
  have pk: "distinct (map r_id (reserves (store (session_of bank2 []))))"
    by (simp add: bank2_def)
  show ?thesis
    using duplicate_ids_rejected
      [of "post ''x'' [] 0 [1, 1]" "\<lparr>AppID = ''x'', BankID = [], Price = 0, ReserveIDs = [1, 1]\<rparr>"
          "session_of bank2 []" id 6, OF _ _ _ _ pk]
    by simp
qed

section \<open>Check\<close>

text \<open>
  C7. A check for a positive price on an existing user, with the store answering every
  call, succeeds exactly when the cached balance \<open>credit\<close> of the user row is at least
  the price; otherwise the answer is status 200 with the ng body
  "credit is insufficient". The answer is a function of the user row alone (no ledger
  entry and no reservation enters it), the row is read by a locking read inside the
  transaction, and the committed tables are left as they were.
\<close>

theorem Check_reads_cache:
  assumes "Method r = ''POST''" and "payload r = Some p" and "0 <s Price p"
      and "faults s = []"
      and "BankID p \<noteq> []"
      and "find (\<lambda>u. bank_id u = BankID p) (users (store s)) = Some u"
      and "0 < u_id u"
      and "distinct (map u_id (users (store s)))"
  shows \<open>(fst (Check r s) = Success \<longleftrightarrow> Price p \<le>s credit u)
       \<and> (credit u <s Price p \<longrightarrow> fst (Check r s) =
            \<lparr>code = 200, body = ''{"status":"ng","error":"credit is insufficient"}'' @ newline\<rparr>)
       \<and> store (snd (Check r s)) = store s
       \<and> trace (snd (Check r s)) = trace s @
            [EvBegin, EvLockUser (u_id u), if credit u <s Price p then EvRollback else EvCommit]\<close>
proof -
  have u: "find (\<lambda>v. u_id v = u_id u) (users (store s)) = Some u"
    using assms(6,8) by (simp add: find_by_key find_in_set)
  have le: "\<not> Price p \<le>s 0" using assms(3) by (simp add: word_sless_alt word_sle_eq)
  note fb = filterBankID_found[OF assms(4,5,6)]
  let ?t0 = "emit [EvBegin] (s\<lparr>work := store s\<rparr>)"
  have ct: "Check_tx (u_id u) (Price p) ?t0 =
      (if credit u <s Price p then Returns (Some CreditIsInsufficient) else Returns None,
       emit [EvLockUser (u_id u)] ?t0)"
    using assms(4) u by (simp add: Check_tx_def select_credit_for_update_def db_call_ok)
  have tx: "txScorp (Check_tx (u_id u) (Price p)) s =
      (if credit u <s Price p then
         (Some CreditIsInsufficient, emit [EvRollback] ((emit [EvLockUser (u_id u)] ?t0)\<lparr>work := store s\<rparr>))
       else (None, emit [EvCommit] ((emit [EvLockUser (u_id u)] ?t0)\<lparr>store := store s\<rparr>)))"
    using assms(4) by (simp add: txScorp_def db_call_ok ct)
  have res: "Check r s =
      (if credit u <s Price p then
         (Error ''credit is insufficient'' 200, emit [EvRollback] ((emit [EvLockUser (u_id u)] ?t0)\<lparr>work := store s\<rparr>))
       else (Success, emit [EvCommit] ((emit [EvLockUser (u_id u)] ?t0)\<lparr>store := store s\<rparr>)))"
    using assms(1,2,7) le by (simp add: Check_def fb tx)
  have ord: "(\<not> credit u <s Price p) = (Price p \<le>s credit u)"
    by (auto simp: word_sless_alt word_sle_eq)
  show ?thesis
  proof (cases "credit u <s Price p")
    case True
    then show ?thesis using ord
      by (simp add: res Error_def ResError_def Success_def ResOK_def)
  next
    case False
    then show ?thesis using ord by (simp add: res)
  qed
qed

theorem Check_reads_cache_witness:
  \<open>fst (Check (post ''x'' ''c'' 501 []) (session_of bank2 [])) =
      \<lparr>code = 200, body = ''{"status":"ng","error":"credit is insufficient"}'' @ newline\<rparr>
   \<and> fst (Check (post ''x'' ''c'' 501 []) (session_of bank2 [])) \<noteq> Success
   \<and> store (snd (Check (post ''x'' ''c'' 501 []) (session_of bank2 []))) = bank2
   \<and> trace (snd (Check (post ''x'' ''c'' 501 []) (session_of bank2 []))) =
        [EvBegin, EvLockUser 1, EvRollback]\<close>
proof -
  let ?p = "\<lparr>AppID = ''x'', BankID = ''c'', Price = 501, ReserveIDs = []\<rparr>"
  let ?u = "\<lparr>u_id = 1, bank_id = ''c'', credit = 500, u_created_at = 0\<rparr>"
  have h1: "Method (post ''x'' ''c'' 501 []) = ''POST''" by simp
  have h2: "payload (post ''x'' ''c'' 501 []) = Some ?p" by simp
  have h3: "(0::int64) <s Price ?p" by (simp add: word_sless_alt)
  have h4: "faults (session_of bank2 []) = []" by simp
  have h5: "BankID ?p \<noteq> []" by simp
  have h6: "find (\<lambda>u. bank_id u = BankID ?p) (users (store (session_of bank2 []))) = Some ?u"
    by (simp add: bank2_def)
  have h7: "0 < u_id ?u" by simp
  have h8: "distinct (map u_id (users (store (session_of bank2 []))))"
    by (simp add: bank2_def)
  have lt: "credit ?u <s Price ?p" "\<not> Price ?p \<le>s credit ?u" by simp_all
  show ?thesis
    using Check_reads_cache [OF h1 h2 h3 h4 h5 h6 h7 h8] lt
    by (simp add: Success_def ResOK_def)
qed

section \<open>Commit\<close>

text \<open>
  C3. When a commit answers with success, the reserve table afterwards is the table
  the locking read saw without the rows whose id is in the list, so none of the ids
  is left; the ledger is the earlier ledger followed by one entry per row the locking
  read returned, in that order, each carrying the user, amount and note of its row;
  and those rows correspond one to one to the ids of the list (the ids are distinct,
  the rows have distinct ids, and the two sets of ids are equal). The reserve table has
  a primary key.
\<close>

theorem Commit_success_effect:
  assumes "fst (Commit g now r s) = Success"
      and "payload r = Some p"
      and "distinct (map r_id (reserves (g (store s))))"
  shows "reserves (store (snd (Commit g now r s))) =
           filter (\<lambda>x. r_id x \<notin> set (ReserveIDs p)) (reserves (g (store s)))
       \<and> (\<forall>i \<in> set (ReserveIDs p). i \<notin> r_id ` set (reserves (store (snd (Commit g now r s)))))
       \<and> credits (store (snd (Commit g now r s))) =
           credits (g (store s)) @ map (entry_of now) (reserves_in (ReserveIDs p) (g (store s)))
       \<and> distinct (ReserveIDs p)
       \<and> distinct (map r_id (reserves_in (ReserveIDs p) (g (store s))))
       \<and> set (map r_id (reserves_in (ReserveIDs p) (g (store s)))) = set (ReserveIDs p)"
proof -
  let ?ids = "ReserveIDs p"
  let ?rows = "reserves_in ?ids (g (store s))"
  from Commit_SuccessD[OF assms(1)] assms(2) obtain s' where
    tx: "txScorp (Commit_tx g now ?ids) s = (None, s')" and s': "snd (Commit g now r s) = s'"
    by auto
  from txScorp_NoneD[OF tx] obtain t0 t where
    t0: "store t0 = store s" "work t0 = store s" and
    f: "Commit_tx g now ?ids t0 = (Returns None, t)" and st: "store s' = work t"
    by blast
  from Commit_txD(2)[OF f] t0 have
    len: "length ?rows = length ?ids" and
    cr: "credits (work t) = credits (g (store s)) @ map (entry_of now) ?rows" and
    rs: "reserves (work t) = filter (\<lambda>x. r_id x \<notin> set ?ids) (reserves (g (store s)))"
    by simp_all
  have d: "distinct (map r_id ?rows)"
    using assms(3) by (simp add: reserves_in_def distinct_map_filter)
  have sub: "set (map r_id ?rows) \<subseteq> set ?ids"
    by (auto simp: reserves_in_def)
  have "card (set (map r_id ?rows)) = length ?ids"
    using distinct_card[OF d] len by simp
  moreover have "card (set ?ids) \<le> length ?ids" by (rule card_length)
  ultimately have eq: "set (map r_id ?rows) = set ?ids"
    using sub card_subset_eq[of "set ?ids" "set (map r_id ?rows)"] card_mono[OF _ sub] by auto
  have "card (set ?ids) = length ?ids"
    using eq distinct_card[OF d] len by simp
  then have di: "distinct ?ids" by (rule card_distinct)
  show ?thesis
    using s' st cr rs d eq di by auto
qed

theorem Commit_success_effect_witness:
  "fst (Commit id 6 (post ''x'' [] 0 [1, 2]) (session_of bank2 [])) = Success
   \<and> reserves (store (snd (Commit id 6 (post ''x'' [] 0 [1, 2]) (session_of bank2 [])))) = []
   \<and> credits (store (snd (Commit id 6 (post ''x'' [] 0 [1, 2]) (session_of bank2 [])))) =
       credits bank2 @
       [\<lparr>c_user_id = 1, c_amount = - 300, c_note = ''app:x, price:-300'', c_created_at = 6\<rparr>,
        \<lparr>c_user_id = 2, c_amount = 300, c_note = ''app:x, price:300'', c_created_at = 6\<rparr>]"
proof -
  let ?r = "post ''x'' [] 0 [1, 2]"
  let ?p = "\<lparr>AppID = ''x'', BankID = [], Price = 0, ReserveIDs = [1, 2]\<rparr>"
  have h1: "fst (Commit id 6 ?r (session_of bank2 [])) = Success"
    by code_simp
  have h2: "payload ?r = Some ?p" by simp
  have h3: "distinct (map r_id (reserves (id (store (session_of bank2 [])))))"
    by (simp add: bank2_def)
  have flt: "filter (\<lambda>x. r_id x \<notin> set (ReserveIDs ?p)) (reserves (id (store (session_of bank2 []))))
               = []"
    by (simp add: bank2_def)
  have ent: "credits (id (store (session_of bank2 []))) @
               map (entry_of 6) (reserves_in (ReserveIDs ?p) (id (store (session_of bank2 [])))) =
             credits bank2 @
       [\<lparr>c_user_id = 1, c_amount = - 300, c_note = ''app:x, price:-300'', c_created_at = 6\<rparr>,
        \<lparr>c_user_id = 2, c_amount = 300, c_note = ''app:x, price:300'', c_created_at = 6\<rparr>]"
    by (simp add: reserves_in_def entry_of_def bank2_def)
  note T = Commit_success_effect [OF h1 h2 h3]
  have a: "reserves (store (snd (Commit id 6 ?r (session_of bank2 [])))) = []"
    using T[THEN conjunct1] by (simp only: flt)
  have b: "credits (store (snd (Commit id 6 ?r (session_of bank2 [])))) =
       credits bank2 @
       [\<lparr>c_user_id = 1, c_amount = - 300, c_note = ''app:x, price:-300'', c_created_at = 6\<rparr>,
        \<lparr>c_user_id = 2, c_amount = 300, c_note = ''app:x, price:300'', c_created_at = 6\<rparr>]"
    using T[THEN conjunct2, THEN conjunct2, THEN conjunct1] by (simp only: ent)
  from h1 a b show ?thesis by (intro conjI)
qed

text \<open>
  C4. When a commit answers with anything but success, the committed tables (users with
  their cached balances, ledger, reservations) hold nothing written by the call: they
  are the tables from before the call, or those tables with what other transactions
  committed in the meantime.
\<close>

theorem Commit_failure_atomic:
  assumes "fst (Commit g now r s) \<noteq> Success"
  shows "store (snd (Commit g now r s)) = store s
       \<or> store (snd (Commit g now r s)) = g (store s)"
proof -
  from Commit_failureD[OF assms] show ?thesis
  proof
    assume "snd (Commit g now r s) = s"
    then show ?thesis by simp
  next
    assume "\<exists>p e s'. payload r = Some p
           \<and> txScorp (Commit_tx g now (ReserveIDs p)) s = (Some e, s')
           \<and> snd (Commit g now r s) = s'"
    then obtain p e s' where
      pl: "payload r = Some p" and
      tx: "txScorp (Commit_tx g now (ReserveIDs p)) s = (Some e, s')" and
      s': "snd (Commit g now r s) = s'"
      by blast
    from txScorp_SomeD[OF tx] show ?thesis
    proof
      assume "store s' = store s"
      then show ?thesis using s' by simp
    next
      assume "\<exists>t0 out t. store t0 = store s \<and> work t0 = store s
                \<and> Commit_tx g now (ReserveIDs p) t0 = (out, t) \<and> store s' = store t"
      then obtain t0 out t where
        t0: "store t0 = store s" and f: "Commit_tx g now (ReserveIDs p) t0 = (out, t)" and
        st: "store s' = store t"
        by blast
      from Commit_txD(1)[OF f] t0 st s' show ?thesis by auto
    qed
  qed
qed

theorem Commit_failure_atomic_witness:
  "fst (Commit id 6 (post ''x'' [] 0 [1, 2])
         (session_of bank2 [None, None, None, None, None, None, None, Some (StoreError 1213)]))
     = Error ''internal server error'' 500
   \<and> EvUpdateCredit 1 \<in> set (trace (snd (Commit id 6 (post ''x'' [] 0 [1, 2])
         (session_of bank2 [None, None, None, None, None, None, None, Some (StoreError 1213)]))))
   \<and> store (snd (Commit id 6 (post ''x'' [] 0 [1, 2])
         (session_of bank2 [None, None, None, None, None, None, None, Some (StoreError 1213)])))
     = bank2"
proof -
  let ?s = "session_of bank2 [None, None, None, None, None, None, None, Some (StoreError 1213)]"
  let ?r = "post ''x'' [] 0 [1, 2]"
  have h1: "fst (Commit id 6 ?r ?s) = Error ''internal server error'' 500"
    by code_simp
  have h2: "EvUpdateCredit 1 \<in> set (trace (snd (Commit id 6 ?r ?s)))"
    by code_simp
  have h3: "fst (Commit id 6 ?r ?s) \<noteq> Success"
    unfolding h1 by simp
  show ?thesis
    using Commit_failure_atomic [OF h3] h1 h2
    by simp
qed

end
